theory Spec2Isabelle
  imports Main "HOL-Library.Sublist" "HOL-Library.Multiset"
begin

section \<open>Text, integers and paths\<close>

text \<open>
  Python text is modelled as \<^typ>\<open>string\<close>, one \<^typ>\<open>char\<close> per code point below 256.
  A \<open>pathlib.Path\<close> is the list of its components; the last one is its \<open>name\<close>.
\<close>

type_synonym path = "string list"

definition tab :: char where
  "tab = CHR 0x09"

definition nl :: char where
  "nl = CHR 0x0A"

text \<open>\<open>s.rstrip(c)\<close> for a one-character argument: every trailing \<open>c\<close> is removed.\<close>

definition str_rstrip :: "char \<Rightarrow> string \<Rightarrow> string" where
  "str_rstrip c s = rev (dropWhile (\<lambda>x. x = c) (rev s))"

text \<open>\<open>s.split(c)\<close> for a one-character separator: never the empty list.\<close>

fun str_split :: "char \<Rightarrow> string \<Rightarrow> string list" where
  "str_split c [] = [[]]"
| "str_split c (x # xs) =
     (if x = c then [] # str_split c xs
      else (case str_split c xs of
              [] \<Rightarrow> [[x]]
            | f # fs \<Rightarrow> (x # f) # fs))"

text \<open>\<open>c.join(fs)\<close>, the serialisation that \<open>split\<close> undoes.\<close>

fun str_join :: "char \<Rightarrow> string list \<Rightarrow> string" where
  "str_join c [] = []"
| "str_join c [f] = f"
| "str_join c (f # g # fs) = f @ c # str_join c (g # fs)"

definition is_digit :: "char \<Rightarrow> bool" where
  "is_digit c = (48 \<le> (of_char c :: nat) \<and> (of_char c :: nat) \<le> 57)"

definition digit_val :: "char \<Rightarrow> nat" where
  "digit_val c = (of_char c :: nat) - 48"

text \<open>
  The characters \<open>int()\<close> strips from both ends of its argument: the six ASCII whitespace
  characters and, of the code points from 128 to 255, the two spaces U+0085 and U+00A0.
  The separators U+001C to U+001F are not stripped: \<open>int\<close> raises on them.
\<close>

definition is_space :: "char \<Rightarrow> bool" where
  "is_space c = ((of_char c :: nat) \<in> {9, 10, 11, 12, 13, 32, 133, 160})"

definition str_strip :: "string \<Rightarrow> string" where
  "str_strip s = rev (dropWhile is_space (rev (dropWhile is_space s)))"

text \<open>
  The digit part of an integer literal: digits, with single underscores allowed between
  two digits only.
\<close>

fun digit_groups :: "string \<Rightarrow> bool" where
  "digit_groups [] = False"
| "digit_groups [c] = is_digit c"
| "digit_groups (c # d # r) =
     (is_digit c \<and> (if d = CHR ''_'' then r \<noteq> [] \<and> digit_groups r else digit_groups (d # r)))"

definition digits_value :: "string \<Rightarrow> nat" where
  "digits_value s = foldl (\<lambda>a c. 10 * a + digit_val c) 0 (filter is_digit s)"

text \<open>
  \<open>int(s)\<close> in base 10: surrounding whitespace, an optional sign, digit groups. \<open>None\<close> is
  the \<open>ValueError\<close>; CPython also refuses a literal of more than 4300 digits.
\<close>

definition unsigned_int :: "string \<Rightarrow> int option" where
  "unsigned_int s =
     (if digit_groups s \<and> length (filter is_digit s) \<le> 4300
      then Some (int (digits_value s)) else None)"

definition py_int :: "string \<Rightarrow> int option" where
  "py_int s =
     (case str_strip s of
        [] \<Rightarrow> None
      | c # r \<Rightarrow>
          if c = CHR ''-'' then map_option uminus (unsigned_int r)
          else if c = CHR ''+'' then unsigned_int r
          else unsigned_int (c # r))"

text \<open>\<open>str(n)\<close> for an integer.\<close>

function str_nat :: "nat \<Rightarrow> string" where
  "str_nat n =
     (if n < 10 then [char_of (48 + n)]
      else str_nat (n div 10) @ [char_of (48 + n mod 10)])"
  by pat_completeness auto
termination
  by (relation "measure id") auto

definition str_int :: "int \<Rightarrow> string" where
  "str_int i = (if i < 0 then CHR ''-'' # str_nat (nat (- i)) else str_nat (nat i))"

text \<open>
  \<open>Path.name\<close>, \<open>Path.suffix\<close> and \<open>Path.with_suffix\<close>. The suffix starts at the last dot
  of the name, unless that dot is the first or the last character of the name.
\<close>

definition Path_name :: "path \<Rightarrow> string" where
  "Path_name p = (if p = [] then [] else last p)"

definition rfind_dot :: "string \<Rightarrow> nat option" where
  "rfind_dot s =
     (if CHR ''.'' \<in> set s
      then Some (length s - Suc (length (takeWhile (\<lambda>x. x \<noteq> CHR ''.'') (rev s))))
      else None)"

definition name_suffix :: "string \<Rightarrow> string" where
  "name_suffix n =
     (case rfind_dot n of
        None \<Rightarrow> []
      | Some i \<Rightarrow> if 0 < i \<and> Suc i < length n then drop i n else [])"

definition Path_suffix :: "path \<Rightarrow> string" where
  "Path_suffix p = name_suffix (Path_name p)"

datatype exn =
    AssertionError nat string
  | ValueError string
  | IndexError
  | FileNotFoundError path
  | FileExistsError path
  | NotADirectoryError path
  | PermissionError path
  | NotImplementedError

definition Path_with_suffix :: "path \<Rightarrow> string \<Rightarrow> exn + path" where
  "Path_with_suffix p sfx =
     (if Path_name p = [] then Inl (ValueError [])
      else Inr (butlast p @
             [take (length (Path_name p) - length (Path_suffix p)) (Path_name p) @ sfx]))"

section \<open>Track metadata\<close>

record TrackMetadata =
  title :: string
  artist :: string
  track_num :: int
  track_length :: string
  composer :: string
  album_title :: string
  album_artist :: string
  album_composer :: string
  album_interpret :: string
  year :: int
  genre :: string
  comment :: string
  num_tracks :: int
  track_offset :: int
  cd_db_type :: string
  cd_db_id :: string

text \<open>
  \<open>_TrackMetadata.from_tab_delimited_line\<close>. The \<open>assert\<close> on the number of items and the
  four \<open>int()\<close> conversions, in the order the constructor call evaluates them, are the
  ways it raises.
\<close>

definition line_items :: "string \<Rightarrow> string list" where
  "line_items line = str_split tab (str_rstrip tab (str_rstrip nl line))"

definition from_tab_delimited_line :: "string \<Rightarrow> exn + TrackMetadata" where
  "from_tab_delimited_line line =
     (let items = line_items line in
      if length items \<noteq> 16
      then Inl (AssertionError (length items) (str_rstrip tab (str_rstrip nl line)))
      else
        (case py_int (items ! 2) of
           None \<Rightarrow> Inl (ValueError (items ! 2))
         | Some tn \<Rightarrow>
        (case py_int (items ! 9) of
           None \<Rightarrow> Inl (ValueError (items ! 9))
         | Some yr \<Rightarrow>
        (case py_int (items ! 12) of
           None \<Rightarrow> Inl (ValueError (items ! 12))
         | Some nt \<Rightarrow>
        (case py_int (items ! 13) of
           None \<Rightarrow> Inl (ValueError (items ! 13))
         | Some off \<Rightarrow>
             Inr \<lparr> title = items ! 0, artist = items ! 1, track_num = tn,
                   track_length = items ! 3, composer = items ! 4,
                   album_title = items ! 5, album_artist = items ! 6,
                   album_composer = items ! 7, album_interpret = items ! 8,
                   year = yr, genre = items ! 10, comment = items ! 11,
                   num_tracks = nt, track_offset = off,
                   cd_db_type = items ! 14, cd_db_id = items ! 15 \<rparr>)))))"

section \<open>Album directories\<close>

text \<open>
  The pattern \<open>(?P<track_num>\d+).+\.wav\<close>, applied with \<open>re.match\<close>: anchored at the start of
  the name only. \<open>dot_plus_wav s\<close> says that \<open>.+\.wav\<close> matches a prefix of \<open>s\<close> (the dot
  matches any character but a newline). The group \<open>\d+\<close> is greedy and backtracks: it is the
  longest run of leading digits after which the rest of the pattern still matches.
\<close>

fun dot_plus_wav :: "string \<Rightarrow> bool" where
  "dot_plus_wav [] = False"
| "dot_plus_wav (c # cs) = (c \<noteq> nl \<and> (take 4 cs = ''.wav'' \<or> dot_plus_wav cs))"

definition wav_regex_match :: "string \<Rightarrow> string option" where
  "wav_regex_match s =
     (case List.find (\<lambda>k. dot_plus_wav (drop k s))
             (rev [1 ..< Suc (length (takeWhile is_digit s))]) of
        None \<Rightarrow> None
      | Some k \<Rightarrow> Some (take k s))"

text \<open>
  The older copy of the script (\<open>ProcessRippedCDs/ProcessRippedCDs.py\<close>) has the pattern
  \<open>(?P<track_num>\d+).*.wav\<close>: any characters, then one more character, then \<open>wav\<close>.
\<close>

fun dot_star_dot_wav :: "string \<Rightarrow> bool" where
  "dot_star_dot_wav [] = False"
| "dot_star_dot_wav (c # cs) = (c \<noteq> nl \<and> (take 3 cs = ''wav'' \<or> dot_star_dot_wav cs))"

definition wav_regex_match_legacy :: "string \<Rightarrow> string option" where
  "wav_regex_match_legacy s =
     (case List.find (\<lambda>k. dot_star_dot_wav (drop k s))
             (rev [1 ..< Suc (length (takeWhile is_digit s))]) of
        None \<Rightarrow> None
      | Some k \<Rightarrow> Some (take k s))"

text \<open>The warnings \<open>from_directory\<close> writes before it returns \<open>None\<close>, by their variable parts.\<close>

datatype warning =
    SubdirectoryNotExpected string
  | MultipleMetadataFiles
  | MultipleLogFiles
  | MultipleAlbumPictures
  | FilenameNotExpected string
  | NoWavFiles
  | MetadataFileNotFound
  | WavNotInExpectedFormat string
  | MultipleWavFiles int string string
  | InvalidMetadata exn nat

text \<open>A call either returns \<open>None\<close> after a warning, or an exception escapes it.\<close>

datatype failure = Warned warning | Raised exn

record dir_entry =
  entry_name :: string
  entry_is_file :: bool

record Album =
  source_dir :: path
  tracks :: "TrackMetadata list"
  album_pic :: "path option"
  metadata_filename :: "path option"
  log_filename :: "path option"
  wav_lookup :: "(int \<times> path) list"

text \<open>
  A \<open>dict\<close> keeps its keys in insertion order, so \<open>wav_lookup\<close> is an association list with
  distinct keys; \<open>==\<close> on two dicts ignores the order.
\<close>

definition dict_eq :: "('k \<times> 'v) list \<Rightarrow> ('k \<times> 'v) list \<Rightarrow> bool" where
  "dict_eq a b = (length a = length b \<and> list_all (\<lambda>(k, v). map_of b k = Some v) a)"

definition Album_eq :: "Album \<Rightarrow> Album \<Rightarrow> bool" where
  "Album_eq a b =
     (source_dir a = source_dir b \<and> tracks a = tracks b \<and> album_pic a = album_pic b \<and>
      metadata_filename a = metadata_filename b \<and> log_filename a = log_filename b \<and>
      dict_eq (wav_lookup a) (wav_lookup b))"

text \<open>
  The first loop of \<open>_Album.from_directory\<close>, over \<open>directory.iterdir()\<close>. The state is
  \<open>(wav_filenames, metadata_filename, album_pic, log_filename)\<close>.
\<close>

type_synonym scan = "path list \<times> path option \<times> path option \<times> path option"

fun parse_directory :: "path \<Rightarrow> dir_entry list \<Rightarrow> scan \<Rightarrow> warning + scan" where
  "parse_directory directory [] st = Inr st"
| "parse_directory directory (e # es) (wavs, meta, pic, lg) =
     (if \<not> entry_is_file e then Inl (SubdirectoryNotExpected (entry_name e))
      else if name_suffix (entry_name e) = ''.wav''
        then parse_directory directory es (wavs @ [directory @ [entry_name e]], meta, pic, lg)
      else if name_suffix (entry_name e) = ''.txt''
        then (if meta \<noteq> None then Inl MultipleMetadataFiles
              else parse_directory directory es
                     (wavs, Some (directory @ [entry_name e]), pic, lg))
      else if name_suffix (entry_name e) = ''.log''
        then (if lg \<noteq> None then Inl MultipleLogFiles
              else parse_directory directory es
                     (wavs, meta, pic, Some (directory @ [entry_name e])))
      else if name_suffix (entry_name e) \<in> {''.jpg'', ''.jpeg'', ''.png''}
        then (if pic \<noteq> None then Inl MultipleAlbumPictures
              else parse_directory directory es
                     (wavs, meta, Some (directory @ [entry_name e]), lg))
      else Inl (FilenameNotExpected (entry_name e)))"

text \<open>The second loop: the wav files by track number.\<close>

fun organize_wavs :: "path list \<Rightarrow> (int \<times> path) list \<Rightarrow> failure + (int \<times> path) list" where
  "organize_wavs [] lookup = Inr lookup"
| "organize_wavs (wav_filename # rest) lookup =
     (case wav_regex_match (Path_name wav_filename) of
        None \<Rightarrow> Inl (Warned (WavNotInExpectedFormat (Path_name wav_filename)))
      | Some ds \<Rightarrow>
          (case py_int ds of
             None \<Rightarrow> Inl (Raised (ValueError ds))
           | Some n \<Rightarrow>
               (case map_of lookup n of
                  Some prev_track \<Rightarrow>
                    Inl (Warned (MultipleWavFiles n (Path_name prev_track)
                                   (Path_name wav_filename)))
                | None \<Rightarrow> organize_wavs rest (lookup @ [(n, wav_filename)]))))"

text \<open>The third loop: one track per line of the metadata file, \<open>index\<close> counting from 0.\<close>

fun extract_metadata ::
  "string list \<Rightarrow> nat \<Rightarrow> TrackMetadata list \<Rightarrow> warning + TrackMetadata list" where
  "extract_metadata [] index acc = Inr acc"
| "extract_metadata (line # lines) index acc =
     (case from_tab_delimited_line line of
        Inl ex \<Rightarrow> Inl (InvalidMetadata ex (index + 1))
      | Inr track_metadata \<Rightarrow> extract_metadata lines (Suc index) (acc @ [track_metadata]))"

text \<open>
  \<open>_Album.from_directory\<close>. \<open>files\<close> gives the lines \<open>readlines\<close> returns for each text file
  that can be opened; \<open>listing\<close> is what \<open>directory.iterdir()\<close> yields, in its order.
\<close>

definition from_directory ::
  "(path \<times> string list) list \<Rightarrow> path \<Rightarrow> dir_entry list \<Rightarrow> failure + Album" where
  "from_directory files directory listing =
     (case parse_directory directory listing ([], None, None, None) of
        Inl w \<Rightarrow> Inl (Warned w)
      | Inr (wav_filenames, meta, pic, lg) \<Rightarrow>
          if wav_filenames = [] then Inl (Warned NoWavFiles)
          else (case meta of
             None \<Rightarrow> Inl (Warned MetadataFileNotFound)
           | Some metadata_file \<Rightarrow>
               (case organize_wavs wav_filenames [] of
                  Inl f \<Rightarrow> Inl f
                | Inr lookup \<Rightarrow>
                    (case map_of files metadata_file of
                       None \<Rightarrow> Inl (Raised (FileNotFoundError metadata_file))
                     | Some lines \<Rightarrow>
                         (case extract_metadata lines 0 [] of
                            Inl w \<Rightarrow> Inl (Warned w)
                          | Inr trks \<Rightarrow>
                              Inr \<lparr> source_dir = directory, tracks = trks, album_pic = pic,
                                    metadata_filename = Some metadata_file,
                                    log_filename = lg, wav_lookup = lookup \<rparr>)))))"



text \<open>\<open>_Album.name\<close>: it reads \<open>self.tracks[0]\<close>, an \<open>IndexError\<close> on an empty list.\<close>

definition name :: "Album \<Rightarrow> exn + string" where
  "name album =
     (case tracks album of
        [] \<Rightarrow> Inl IndexError
      | t # _ \<Rightarrow> Inr (album_artist t @ '' - '' @ str_int (year t) @ '' - '' @ album_title t))"

section \<open>The filesystem and the Encode stage\<close>

text \<open>
  The filesystem maps a path to what is there: a directory, or a file with its content.
  The operations follow \<open>pathlib\<close>, \<open>shutil\<close> and \<open>os.rename\<close> on Windows, the one platform
  the script accepts: renaming onto an existing path raises.
\<close>

datatype node = Dir | File string

type_synonym filesystem = "path \<Rightarrow> node option"

definition is_dir :: "filesystem \<Rightarrow> path \<Rightarrow> bool" where
  "is_dir fs p = (fs p = Some Dir)"

definition is_file :: "filesystem \<Rightarrow> path \<Rightarrow> bool" where
  "is_file fs p = (case fs p of Some (File c) \<Rightarrow> True | _ \<Rightarrow> False)"

definition rmtree :: "filesystem \<Rightarrow> path \<Rightarrow> filesystem" where
  "rmtree fs p = (\<lambda>q. if prefix p q then None else fs q)"

text \<open>\<open>p.mkdir(parents=True)\<close>: \<open>p\<close> must not exist, and no ancestor may be a file.\<close>

definition mkdir_parents :: "filesystem \<Rightarrow> path \<Rightarrow> exn + filesystem" where
  "mkdir_parents fs p =
     (if fs p \<noteq> None then Inl (FileExistsError p)
      else if list_ex (is_file fs) (prefixes p) then Inl (NotADirectoryError p)
      else Inr (\<lambda>q. if prefix q p then Some Dir else fs q))"

text \<open>\<open>p.unlink(missing_ok=True)\<close>.\<close>

definition unlink_missing_ok :: "filesystem \<Rightarrow> path \<Rightarrow> exn + filesystem" where
  "unlink_missing_ok fs p =
     (case fs p of
        None \<Rightarrow> Inr fs
      | Some Dir \<Rightarrow> Inl (PermissionError p)
      | Some (File c) \<Rightarrow> Inr (fs(p := None)))"

text \<open>
  \<open>src.rename(dst)\<close>: a directory moves with everything below it; renaming a path to
  itself changes nothing.
\<close>

definition rename :: "filesystem \<Rightarrow> path \<Rightarrow> path \<Rightarrow> exn + filesystem" where
  "rename fs src dst =
     (if fs src = None then Inl (FileNotFoundError src)
      else if src = dst then Inr fs
      else if fs dst \<noteq> None then Inl (FileExistsError dst)
      else if \<not> is_dir fs (butlast dst) then Inl (FileNotFoundError dst)
      else Inr (\<lambda>q. if prefix dst q then fs (src @ drop (length dst) q)
                     else if prefix src q then None
                     else fs q))"

text \<open>\<open>shutil.copy(src, dst)\<close>, for a \<open>dst\<close> that is not a directory.\<close>

definition copy :: "filesystem \<Rightarrow> path \<Rightarrow> path \<Rightarrow> exn + filesystem" where
  "copy fs src dst =
     (case fs src of
        Some (File c) \<Rightarrow>
          if is_dir fs dst then Inr (fs(dst @ [Path_name src] := Some (File c)))
          else if \<not> is_dir fs (butlast dst) then Inl (FileNotFoundError dst)
          else Inr (fs(dst := Some (File c)))
      | _ \<Rightarrow> Inl (FileNotFoundError src))"

datatype InvokeResult = Skipped | Success | Failure

text \<open>What \<open>Encode\<close> writes with \<open>WriteError\<close>.\<close>

datatype encode_error =
    TrackNotFound int
  | WavFilesNotProcessed "string list"

text \<open>
  The external encoder. Its command line is built from the track, the wav file, the output
  name and the album picture; the run gives an exit code and, when it wrote its output
  file, the content of that file.
\<close>

type_synonym flac =
  "TrackMetadata \<Rightarrow> path \<Rightarrow> path \<Rightarrow> path option \<Rightarrow> filesystem \<Rightarrow> int \<times> string option"

text \<open>\<open>album.wav_lookup.pop(k, None)\<close> leaves the other entries in place.\<close>

definition dict_pop :: "'k \<Rightarrow> ('k \<times> 'v) list \<Rightarrow> ('k \<times> 'v) list" where
  "dict_pop k d = filter (\<lambda>kv. fst kv \<noteq> k) d"

text \<open>
  The loop of \<open>Encode\<close> over \<open>album.tracks\<close>. It yields \<open>Some Failure\<close> with what it wrote
  when it returned from \<open>Encode\<close>, and \<open>None\<close> when it ran to its end.
\<close>

fun encode_tracks ::
  "flac \<Rightarrow> path \<Rightarrow> path option \<Rightarrow> TrackMetadata list \<Rightarrow> filesystem \<Rightarrow> (int \<times> path) list \<Rightarrow>
   exn + (InvokeResult option \<times> encode_error list \<times> filesystem \<times> (int \<times> path) list)" where
  "encode_tracks run temp_dir pic [] fs lookup = Inr (None, [], fs, lookup)"
| "encode_tracks run temp_dir pic (track # rest) fs lookup =
     (case map_of lookup (track_num track) of
        None \<Rightarrow>
          if title track \<in> {''Data'', ''Data Track''}
          then encode_tracks run temp_dir pic rest fs lookup
          else Inr (Some Failure, [TrackNotFound (track_num track)], fs, lookup)
      | Some wav_filename \<Rightarrow>
          (case unlink_missing_ok fs (temp_dir @ [''temp_'' @ str_int (track_num track)]) of
             Inl ex \<Rightarrow> Inl ex
           | Inr fs1 \<Rightarrow>
               (case run track wav_filename
                       (temp_dir @ [''temp_'' @ str_int (track_num track)]) pic fs1 of
                  (rc, out) \<Rightarrow>
                    if rc \<noteq> 0
                    then Inr (Some Failure, [],
                              (case out of
                                 None \<Rightarrow> fs1
                               | Some c \<Rightarrow>
                                   fs1(temp_dir @ [''temp_'' @ str_int (track_num track)]
                                         := Some (File c))),
                              dict_pop (track_num track) lookup)
                    else
                      (case Path_with_suffix wav_filename ''.flac'' of
                         Inl ex \<Rightarrow> Inl ex
                       | Inr flac_filename \<Rightarrow>
                           (case rename
                                   (case out of
                                      None \<Rightarrow> fs1
                                    | Some c \<Rightarrow>
                                        fs1(temp_dir @ [''temp_'' @ str_int (track_num track)]
                                              := Some (File c)))
                                   (temp_dir @ [''temp_'' @ str_int (track_num track)])
                                   (temp_dir @ [Path_name flac_filename]) of
                              Inl ex \<Rightarrow> Inl ex
                            | Inr fs3 \<Rightarrow>
                                encode_tracks run temp_dir pic rest fs3
                                  (dict_pop (track_num track) lookup))))))"

text \<open>The album art: copied under a temporary name, then renamed.\<close>

definition copy_album_art :: "filesystem \<Rightarrow> path \<Rightarrow> path option \<Rightarrow> exn + filesystem" where
  "copy_album_art fs temp_dir pic =
     (case pic of
        None \<Rightarrow> Inr fs
      | Some p \<Rightarrow>
          (case unlink_missing_ok fs (temp_dir @ [''album_art.temp'']) of
             Inl ex \<Rightarrow> Inl ex
           | Inr fs1 \<Rightarrow>
               (case copy fs1 p (temp_dir @ [''album_art.temp'']) of
                  Inl ex \<Rightarrow> Inl ex
                | Inr fs2 \<Rightarrow>
                    rename fs2 (temp_dir @ [''album_art.temp'']) (temp_dir @ [Path_name p]))))"

text \<open>
  \<open>Encode\<close>, the function \<open>_GetEncoder\<close> returns. It gives its result, the filesystem and
  the album as it leaves them, and the errors it wrote.
\<close>

definition Encode ::
  "flac \<Rightarrow> filesystem \<Rightarrow> Album \<Rightarrow> path \<Rightarrow>
   exn + (InvokeResult \<times> filesystem \<times> Album \<times> encode_error list)" where
  "Encode run fs album output_dir =
     (if is_dir fs output_dir then Inr (Skipped, fs, album, [])
      else
        (case Path_with_suffix output_dir ''.tmp'' of
           Inl ex \<Rightarrow> Inl ex
         | Inr temp_dir \<Rightarrow>
             (case mkdir_parents (if is_dir fs temp_dir then rmtree fs temp_dir else fs)
                     temp_dir of
                Inl ex \<Rightarrow> Inl ex
              | Inr fs1 \<Rightarrow>
                  (case encode_tracks run temp_dir (album_pic album) (tracks album) fs1
                          (wav_lookup album) of
                     Inl ex \<Rightarrow> Inl ex
                   | Inr (Some r, errs, fs2, lookup) \<Rightarrow>
                       Inr (r, fs2, album\<lparr>wav_lookup := lookup\<rparr>, errs)
                   | Inr (None, errs, fs2, lookup) \<Rightarrow>
                       if lookup \<noteq> []
                       then Inr (Failure, fs2, album\<lparr>wav_lookup := lookup\<rparr>,
                                 errs @ [WavFilesNotProcessed (map (\<lambda>kv. Path_name (snd kv)) lookup)])
                       else
                         (case copy_album_art fs2 temp_dir (album_pic album) of
                            Inl ex \<Rightarrow> Inl ex
                          | Inr fs3 \<Rightarrow>
                              (case rename fs3 temp_dir output_dir of
                                 Inl ex \<Rightarrow> Inl ex
                               | Inr fs4 \<Rightarrow>
                                   Inr (Success, fs4, album\<lparr>wav_lookup := lookup\<rparr>,
                                        errs)))))))"

section \<open>The batch orchestrator\<close>

















section \<open>Example inputs\<close>

text \<open>Concrete inputs at which the theorems below are instantiated.\<close>

definition example_fields :: "string list" where
  "example_fields =
     [''My Song'', ''The Artist'', ''3'', ''4:05'', '''', ''An Album'', ''Some Band'', '''', '''',
      ''1999'', ''Rock'', '''', ''12'', ''0'', ''freedb'', ''a90b7c0d'']"

definition example_fields_empty_id :: "string list" where
  "example_fields_empty_id =
     [''My Song'', ''The Artist'', ''3'', ''4:05'', '''', ''An Album'', ''Some Band'', '''', '''',
      ''1999'', ''Rock'', '''', ''12'', ''0'', ''freedb'', '''']"

text \<open>An encoder run that succeeds and writes its output file.\<close>

definition flac_ok :: flac where
  "flac_ok track wav_filename output_name pic fs = (0, Some ''fLaC'')"

text \<open>A filesystem that holds the root directory only.\<close>

definition root_only :: filesystem where
  "root_only p = (if p = [] then Some Dir else None)"

definition example_track :: "int \<Rightarrow> string \<Rightarrow> TrackMetadata" where
  "example_track n t =
     \<lparr> title = t, artist = ''The Artist'', track_num = n, track_length = ''4:05'',
       composer = '''', album_title = ''An Album'', album_artist = ''Some Band'',
       album_composer = '''', album_interpret = '''', year = 1999, genre = ''Rock'',
       comment = '''', num_tracks = 12, track_offset = 0, cd_db_type = ''freedb'',
       cd_db_id = ''a90b7c0d'' \<rparr>"

text \<open>An album with a wav file for track 7 that no track record names.\<close>

definition album_extra_wav :: Album where
  "album_extra_wav =
     \<lparr> source_dir = [''in'', ''cd''], tracks = [example_track 1 ''Intro''],
       album_pic = None, metadata_filename = Some [''in'', ''cd'', ''meta.txt''],
       log_filename = None,
       wav_lookup = [(1, [''in'', ''cd'', ''01 - Intro.wav'']),
                     (7, [''in'', ''cd'', ''07 - Extra.wav''])] \<rparr>"

text \<open>An album in a directory named \<open>Live.tmp\<close>, whose one track record names track 5.\<close>

definition album_live_tmp :: Album where
  "album_live_tmp =
     \<lparr> source_dir = [''in'', ''Live.tmp''], tracks = [example_track 5 ''Song''],
       album_pic = None, metadata_filename = Some [''in'', ''Live.tmp'', ''meta.txt''],
       log_filename = None,
       wav_lookup = [(1, [''in'', ''Live.tmp'', ''01 - Song.wav''])] \<rparr>"

text \<open>A directory listing in two orders, and the one-line metadata file it names.\<close>

definition listing_a :: "dir_entry list" where
  "listing_a =
     [\<lparr>entry_name = ''03 - My Song.wav'', entry_is_file = True\<rparr>,
      \<lparr>entry_name = ''04 - Other.wav'', entry_is_file = True\<rparr>,
      \<lparr>entry_name = ''meta.txt'', entry_is_file = True\<rparr>]"

definition listing_b :: "dir_entry list" where
  "listing_b =
     [\<lparr>entry_name = ''meta.txt'', entry_is_file = True\<rparr>,
      \<lparr>entry_name = ''04 - Other.wav'', entry_is_file = True\<rparr>,
      \<lparr>entry_name = ''03 - My Song.wav'', entry_is_file = True\<rparr>]"

definition example_files :: "(path \<times> string list) list" where
  "example_files = [([''cd'', ''meta.txt''], [str_join tab example_fields @ [nl]])]"

text \<open>A subdirectory and a stray file.\<close>

definition entry_sub :: dir_entry where
  "entry_sub = \<lparr>entry_name = ''sub'', entry_is_file = False\<rparr>"

definition entry_stray :: dir_entry where
  "entry_stray = \<lparr>entry_name = ''x.bin'', entry_is_file = True\<rparr>"









section \<open>Notions used in the proofs\<close>

text \<open>The entries of a listing whose suffix is one of the given ones, in listing order.\<close>

definition entries_with :: "string list \<Rightarrow> dir_entry list \<Rightarrow> dir_entry list" where
  "entries_with sfxs es = filter (\<lambda>e. name_suffix (entry_name e) \<in> set sfxs) es"

text \<open>An entry the first loop of \<open>from_directory\<close> accepts: a file with a known suffix.\<close>

definition expected_entry :: "dir_entry \<Rightarrow> bool" where
  "expected_entry e =
     (entry_is_file e \<and>
      name_suffix (entry_name e) \<in> {''.wav'', ''.txt'', ''.log'', ''.jpg'', ''.jpeg'', ''.png''})"

text \<open>The path of the first of some entries, or a default when there is none.\<close>

definition first_path :: "path \<Rightarrow> dir_entry list \<Rightarrow> path option \<Rightarrow> path option" where
  "first_path directory es dflt =
     (case es of [] \<Rightarrow> dflt | e # _ \<Rightarrow> Some (directory @ [entry_name e]))"

text \<open>The track number the second loop reads from a wav file's name, if it reads one.\<close>

definition wav_key :: "path \<Rightarrow> int option" where
  "wav_key w =
     (case wav_regex_match (Path_name w) of None \<Rightarrow> None | Some ds \<Rightarrow> py_int ds)"




section \<open>The track metadata parser\<close>

lemma str_split_ne: "str_split c s \<noteq> []"
  by (induction s) (auto split: list.splits)

lemma length_str_split: "length (str_split c s) = Suc (length (filter (\<lambda>x. x = c) s))"
  by (induction s) (auto split: list.splits simp: str_split_ne)

lemma str_split_no_sep: "c \<notin> set f \<Longrightarrow> str_split c f = [f]"
  by (induction f) auto

lemma str_split_append_sep:
  "c \<notin> set f \<Longrightarrow> str_split c (f @ c # s) = f # str_split c s"
  by (induction f) auto

lemma str_split_join:
  "fs \<noteq> [] \<Longrightarrow> \<forall>f\<in>set fs. c \<notin> set f \<Longrightarrow> str_split c (str_join c fs) = fs"
  by (induction c fs rule: str_join.induct) (auto simp: str_split_no_sep str_split_append_sep)

lemma str_rstrip_snoc: "str_rstrip c (s @ [c]) = str_rstrip c s"
  by (simp add: str_rstrip_def)

lemma str_rstrip_append_replicate: "str_rstrip c (s @ replicate k c) = str_rstrip c s"
proof (induction k)
  case 0
  show ?case by simp
next
  case (Suc k)
  have "s @ replicate (Suc k) c = (s @ replicate k c) @ [c]"
    by (simp add: replicate_append_same)
  then show ?case using Suc by (simp only: str_rstrip_snoc)
qed

lemma str_rstrip_id: "s = [] \<or> last s \<noteq> c \<Longrightarrow> str_rstrip c s = s"
  by (cases s rule: rev_cases) (auto simp: str_rstrip_def)

lemma filter_str_rstrip_le:
  "length (filter P (str_rstrip c s)) \<le> length (filter P s)"
proof (induction s rule: rev_induct)
  case Nil
  show ?case by (simp add: str_rstrip_def)
next
  case (snoc x xs)
  show ?case
  proof (cases "x = c")
    case True
    with snoc show ?thesis by (simp add: str_rstrip_snoc)
  next
    case False
    then have "str_rstrip c (xs @ [x]) = xs @ [x]" by (simp add: str_rstrip_def)
    then show ?thesis by simp
  qed
qed

lemma filter_str_rstrip_less:
  assumes "s \<noteq> []" and "last s = c"
  shows "length (filter (\<lambda>x. x = c) (str_rstrip c s)) < length (filter (\<lambda>x. x = c) s)"
proof -
  from assms obtain s' where s: "s = s' @ [c]"
    by (metis append_butlast_last_id)
  have "length (filter (\<lambda>x. x = c) (str_rstrip c s')) \<le> length (filter (\<lambda>x. x = c) s')"
    by (rule filter_str_rstrip_le)
  then show ?thesis by (simp add: s str_rstrip_snoc)
qed

lemma str_join_last_sep_aux:
  "fs \<noteq> [] \<Longrightarrow> last fs = [] \<Longrightarrow>
   str_join c (f # fs) \<noteq> [] \<and> last (str_join c (f # fs)) = c"
proof (induction fs arbitrary: f)
  case Nil
  then show ?case by simp
next
  case (Cons g fs)
  show ?case
  proof (cases fs)
    case Nil
    with Cons.prems have "g = []" by simp
    with Nil show ?thesis by simp
  next
    case (Cons h hs)
    with Cons.prems have "fs \<noteq> []" and "last fs = []" by simp_all
    then have ih: "str_join c (g # fs) \<noteq> [] \<and> last (str_join c (g # fs)) = c"
      by (rule Cons.IH)
    have "str_join c (f # g # fs) = f @ c # str_join c (g # fs)" by simp
    with ih show ?thesis by (simp only: last_append last.simps) simp
  qed
qed

lemma str_join_last_sep:
  "2 \<le> length fs \<Longrightarrow> last fs = [] \<Longrightarrow> str_join c fs \<noteq> [] \<and> last (str_join c fs) = c"
proof (cases fs)
  case Nil
  assume "2 \<le> length fs"
  with Nil show ?thesis by simp
next
  case (Cons f gs)
  assume "2 \<le> length fs" and "last fs = []"
  with Cons have "gs \<noteq> []" and "last gs = []" by (auto split: if_splits)
  then show ?thesis unfolding Cons by (rule str_join_last_sep_aux)
qed

lemma count_str_join:
  "fs \<noteq> [] \<Longrightarrow> \<forall>f\<in>set fs. c \<notin> set f \<Longrightarrow>
   Suc (length (filter (\<lambda>x. x = c) (str_join c fs))) = length fs"
proof (induction c fs rule: str_join.induct)
  case (2 c f)
  then have "filter (\<lambda>x. x = c) f = []" by (auto simp: filter_empty_conv)
  then show ?case by simp
next
  case (3 c f g fs)
  then have "filter (\<lambda>x. x = c) f = []" by (auto simp: filter_empty_conv)
  with 3 show ?case by simp
qed simp

lemma str_join_last:
  "fs \<noteq> [] \<Longrightarrow> last fs \<noteq> [] \<Longrightarrow> str_join c fs \<noteq> [] \<and> last (str_join c fs) = last (last fs)"
  by (induction c fs rule: str_join.induct) (auto split: if_splits)

lemma line_items_str_join:
  assumes "fs \<noteq> []" and "\<forall>f\<in>set fs. tab \<notin> set f"
    and "last fs \<noteq> []" and "last (last fs) \<noteq> nl"
  shows "line_items (str_join tab fs @ replicate k nl) = fs"
proof -
  have l: "str_join tab fs \<noteq> [] \<and> last (str_join tab fs) = last (last fs)"
    using assms by (simp add: str_join_last)
  have "last (last fs) \<in> set (last fs)" using assms by simp
  moreover have "last fs \<in> set fs" using assms by simp
  ultimately have nt: "last (last fs) \<noteq> tab" using assms(2) by metis
  have "str_rstrip nl (str_join tab fs @ replicate k nl) = str_join tab fs"
    using l assms(4) by (simp add: str_rstrip_append_replicate str_rstrip_id)
  moreover have "str_rstrip tab (str_join tab fs) = str_join tab fs"
    using l nt by (simp add: str_rstrip_id)
  ultimately show ?thesis
    using assms(1,2) by (simp add: line_items_def str_split_join)
qed

text \<open>
  \<open>int()\<close> on text that begins or ends with one of the separators U+001C to U+001F raises,
  while surrounding spaces, ASCII or U+00A0, are stripped.
\<close>

lemma py_int_separators:
  "py_int [CHR 0x1C, CHR ''3''] = None"
  "py_int [CHR ''3'', CHR 0x1F] = None"
  "py_int [CHR 0xA0, CHR ''3'', CHR '' ''] = Some 3"
  by (simp_all add: py_int_def str_strip_def is_space_def unsigned_int_def is_digit_def
        digits_value_def digit_val_def)


lemma example_items:
  "line_items (str_join tab example_fields @ [nl]) = example_fields"
  using line_items_str_join [of example_fields 1]
  by (simp add: example_fields_def tab_def nl_def)

lemma py_int_examples:
  "py_int ''3'' = Some 3" "py_int ''1999'' = Some 1999" "py_int ''12'' = Some 12"
  "py_int ''0'' = Some 0"
  by (simp_all add: py_int_def str_strip_def is_space_def unsigned_int_def is_digit_def
        digits_value_def digit_val_def)


text \<open>
  The failing side at a concrete line: with \<open>U+001C\<close> before the digit of item 2 the line
  still has 16 items, and the conversion of that item raises.
\<close>

lemma separator_field_raises:
  "from_tab_delimited_line (str_join tab (example_fields[2 := [CHR 0x1C, CHR ''3'']]) @ [nl])
   = Inl (ValueError [CHR 0x1C, CHR ''3''])"
proof -
  let ?fs = "example_fields[2 := [CHR 0x1C, CHR ''3'']]"
  have items: "line_items (str_join tab ?fs @ [nl]) = ?fs"
    using line_items_str_join [of ?fs 1]
    by (simp add: example_fields_def tab_def nl_def)
  have len: "length ?fs = 16" by (simp add: example_fields_def)
  have f2: "?fs ! 2 = [CHR 0x1C, CHR ''3'']" by (simp add: example_fields_def)
  show ?thesis
    unfolding from_tab_delimited_line_def Let_def items len f2 py_int_separators
    by simp
qed

text \<open>
  Claim C5. A line that strips and splits into fewer or more than 16 items fails on the
  assertion: the result is the \<open>AssertionError\<close>, never a record.
\<close>

theorem from_tab_delimited_line_arity:
  assumes "length (line_items line) < 16 \<or> 16 < length (line_items line)"
  shows "from_tab_delimited_line line =
           Inl (AssertionError (length (line_items line)) (str_rstrip tab (str_rstrip nl line)))
         \<and> (\<forall>t. from_tab_delimited_line line \<noteq> Inr t)"
proof -
  from assms have "length (line_items line) \<noteq> 16" by auto
  then have "from_tab_delimited_line line =
           Inl (AssertionError (length (line_items line)) (str_rstrip tab (str_rstrip nl line)))"
    unfolding from_tab_delimited_line_def Let_def by (rule if_P)
  then show ?thesis by simp
qed

theorem from_tab_delimited_line_arity_witness:
  "length (line_items [CHR ''a'', tab, CHR ''b'', nl]) < 16 \<and>
   from_tab_delimited_line [CHR ''a'', tab, CHR ''b'', nl] =
     Inl (AssertionError 2 [CHR ''a'', tab, CHR ''b''])"
proof -
  have items: "line_items [CHR ''a'', tab, CHR ''b'', nl] = [''a'', ''b'']"
    by (simp add: line_items_def str_rstrip_def tab_def nl_def)
  have strip: "str_rstrip tab (str_rstrip nl [CHR ''a'', tab, CHR ''b'', nl]) = [CHR ''a'', tab, CHR ''b'']"
    by (simp add: str_rstrip_def tab_def nl_def)
  show ?thesis
    using from_tab_delimited_line_arity [of "[CHR ''a'', tab, CHR ''b'', nl]"]
    by (simp add: items strip)
qed

text \<open>
  Claim C10. Sixteen tab-free fields of which the last is empty, joined by tabs and ended by
  newlines: the trailing tab is stripped with the newline, fewer than 16 items remain and
  the line does not parse.
\<close>

theorem empty_last_field_rejected:
  assumes "length fs = 16" and "\<forall>f\<in>set fs. tab \<notin> set f" and "last fs = []"
  shows "length (line_items (str_join tab fs @ replicate k nl)) < 16
         \<and> (\<forall>t. from_tab_delimited_line (str_join tab fs @ replicate k nl) \<noteq> Inr t)"
proof -
  let ?j = "str_join tab fs"
  have ne: "fs \<noteq> []" using assms(1) by auto
  have l: "?j \<noteq> [] \<and> last ?j = tab"
    using assms(1,3) by (simp add: str_join_last_sep)
  have "tab \<noteq> nl" by (simp add: tab_def nl_def)
  with l have "str_rstrip nl (?j @ replicate k nl) = ?j"
    by (simp add: str_rstrip_append_replicate str_rstrip_id)
  then have items: "line_items (?j @ replicate k nl) = str_split tab (str_rstrip tab ?j)"
    by (simp add: line_items_def)
  have "length (filter (\<lambda>x. x = tab) (str_rstrip tab ?j)) < length (filter (\<lambda>x. x = tab) ?j)"
    using l by (simp add: filter_str_rstrip_less)
  moreover have "Suc (length (filter (\<lambda>x. x = tab) ?j)) = 16"
    using count_str_join [OF ne assms(2)] assms(1) by simp
  ultimately have len: "length (line_items (?j @ replicate k nl)) < 16"
    by (simp add: items length_str_split)
  then have "length (line_items (?j @ replicate k nl)) \<noteq> 16" by simp
  then have "from_tab_delimited_line (?j @ replicate k nl) =
           Inl (AssertionError (length (line_items (?j @ replicate k nl)))
                  (str_rstrip tab (str_rstrip nl (?j @ replicate k nl))))"
    unfolding from_tab_delimited_line_def Let_def by (rule if_P)
  with len show ?thesis by simp
qed

theorem empty_last_field_rejected_witness:
  "length example_fields_empty_id = 16 \<and> last example_fields_empty_id = [] \<and>
   length (line_items (str_join tab example_fields_empty_id @ [nl])) < 16 \<and>
   (\<forall>t. from_tab_delimited_line (str_join tab example_fields_empty_id @ [nl]) \<noteq> Inr t)"
proof -
  have a: "length example_fields_empty_id = 16"
    by (simp add: example_fields_empty_id_def)
  have b: "\<forall>f\<in>set example_fields_empty_id. tab \<notin> set f"
    by (simp add: example_fields_empty_id_def tab_def)
  have c: "last example_fields_empty_id = []"
    by (simp add: example_fields_empty_id_def)
  show ?thesis
    using empty_last_field_rejected [OF a b c, of 1] a c by simp
qed

section \<open>The album directory classifier\<close>

lemma name_suffix_examples:
  "name_suffix ''03.wav'' = ''.wav''"
  "name_suffix ''01 - a.wav'' = ''.wav''"
  "name_suffix ''meta.txt'' = ''.txt''"
  "name_suffix ''x.bin'' = ''.bin''"
  by (simp_all add: name_suffix_def rfind_dot_def)

lemma py_int_small:
  "py_int ''0'' = Some 0" "py_int ''03'' = Some 3" "py_int ''3'' = Some 3" "py_int ''01'' = Some 1"
  by (simp_all add: py_int_def str_strip_def is_space_def unsigned_int_def is_digit_def
        digits_value_def digit_val_def)

lemma wav_regex_examples:
  "wav_regex_match ''03.wav'' = Some ''0''"
  "wav_regex_match ''3 - Track.wav'' = Some ''3''"
  "wav_regex_match ''Track.wav'' = None"
  "wav_regex_match ''01 - a.wav'' = Some ''01''"
  by (simp_all add: wav_regex_match_def is_digit_def nl_def)

lemma wav_regex_legacy_examples:
  "wav_regex_match_legacy ''03.wav'' = Some ''03''"
  "wav_regex_match_legacy ''3 - Track.wav'' = Some ''3''"
  "wav_regex_match_legacy ''Track.wav'' = None"
  by (simp_all add: wav_regex_match_legacy_def is_digit_def nl_def)

lemma wav_regex_match_no_digit:
  "s = [] \<or> \<not> is_digit (hd s) \<Longrightarrow> wav_regex_match s = None"
  by (cases s) (auto simp: wav_regex_match_def)

text \<open>
  Claim C2. The name \<open>3 - Track.wav\<close> gives track 3 and a name without a leading digit is
  rejected (\<open>wav_regex_examples\<close>, \<open>wav_regex_match_no_digit\<close>). On \<open>03.wav\<close> the pattern
  \<open>\d+.+\.wav\<close> needs a character between the digits and the extension, so the digit group
  backtracks to \<open>0\<close>: the track number is 0. The older pattern \<open>\d+.*.wav\<close> gives 3.
\<close>

theorem track_number_of_03_wav:
  "wav_regex_match ''03.wav'' = Some ''0'' \<and> py_int ''0'' = Some 0 \<and>
   organize_wavs [[''cd'', ''03.wav'']] [] = Inr [(0, [''cd'', ''03.wav''])] \<and>
   wav_regex_match_legacy ''03.wav'' = Some ''03'' \<and> py_int ''03'' = Some 3"
  by (simp add: wav_regex_examples wav_regex_legacy_examples py_int_small Path_name_def)

text \<open>
  Claim C3. A directory with one wav file and a metadata file of zero lines is not rejected:
  \<open>from_directory\<close> returns an album with no tracks, on which \<open>name\<close> raises \<open>IndexError\<close>.
\<close>

theorem empty_metadata_file_gives_album:
  "from_directory [([''cd'', ''meta.txt''], [])] [''cd'']
     [\<lparr>entry_name = ''01 - a.wav'', entry_is_file = True\<rparr>,
      \<lparr>entry_name = ''meta.txt'', entry_is_file = True\<rparr>]
   = Inr \<lparr> source_dir = [''cd''], tracks = [], album_pic = None,
           metadata_filename = Some [''cd'', ''meta.txt''], log_filename = None,
           wav_lookup = [(1, [''cd'', ''01 - a.wav''])] \<rparr> \<and>
   name \<lparr> source_dir = [''cd''], tracks = [], album_pic = None,
          metadata_filename = Some [''cd'', ''meta.txt''], log_filename = None,
          wav_lookup = [(1, [''cd'', ''01 - a.wav''])] \<rparr> = Inl IndexError"
  by (simp add: from_directory_def name_suffix_examples wav_regex_examples py_int_small
        Path_name_def name_def)

lemma name_suffix_examples2:
  "name_suffix ''03 - My Song.wav'' = ''.wav''"
  "name_suffix ''04 - Other.wav'' = ''.wav''"
  "name_suffix ''sub'' = []"
  by (simp_all add: name_suffix_def rfind_dot_def)

lemma wav_regex_examples2:
  "wav_regex_match ''03 - My Song.wav'' = Some ''03''"
  "wav_regex_match ''04 - Other.wav'' = Some ''04''"
  by (simp_all add: wav_regex_match_def is_digit_def nl_def)

lemma py_int_small2: "py_int ''04'' = Some 4"
  by (simp add: py_int_def str_strip_def is_space_def unsigned_int_def is_digit_def
        digits_value_def digit_val_def)

lemma example_line_track:
  "from_tab_delimited_line (str_join tab example_fields @ [nl]) = Inr (example_track 3 ''My Song'')"
proof -
  have len: "length example_fields = 16" by (simp add: example_fields_def)
  have nths:
    "example_fields ! 0 = ''My Song''" "example_fields ! 1 = ''The Artist''"
    "example_fields ! 2 = ''3''" "example_fields ! 3 = ''4:05''"
    "example_fields ! 4 = []" "example_fields ! 5 = ''An Album''"
    "example_fields ! 6 = ''Some Band''" "example_fields ! 7 = []"
    "example_fields ! 8 = []" "example_fields ! 9 = ''1999''"
    "example_fields ! 10 = ''Rock''" "example_fields ! 11 = []"
    "example_fields ! 12 = ''12''" "example_fields ! 13 = ''0''"
    "example_fields ! 14 = ''freedb''" "example_fields ! 15 = ''a90b7c0d''"
    by (simp_all add: example_fields_def)
  show ?thesis
    unfolding from_tab_delimited_line_def Let_def example_items len nths py_int_examples
      example_track_def
    by simp
qed

lemma from_directory_listing_a:
  "from_directory example_files [''cd''] listing_a =
     Inr \<lparr> source_dir = [''cd''], tracks = [example_track 3 ''My Song''], album_pic = None,
           metadata_filename = Some [''cd'', ''meta.txt''], log_filename = None,
           wav_lookup = [(3, [''cd'', ''03 - My Song.wav'']), (4, [''cd'', ''04 - Other.wav''])] \<rparr>"
  by (simp add: from_directory_def listing_a_def example_files_def name_suffix_examples
        name_suffix_examples2 wav_regex_examples2 py_int_small py_int_small2 Path_name_def
        example_line_track)

lemma from_directory_listing_b:
  "from_directory example_files [''cd''] listing_b =
     Inr \<lparr> source_dir = [''cd''], tracks = [example_track 3 ''My Song''], album_pic = None,
           metadata_filename = Some [''cd'', ''meta.txt''], log_filename = None,
           wav_lookup = [(4, [''cd'', ''04 - Other.wav'']), (3, [''cd'', ''03 - My Song.wav''])] \<rparr>"
  by (simp add: from_directory_def listing_b_def example_files_def name_suffix_examples
        name_suffix_examples2 wav_regex_examples2 py_int_small py_int_small2 Path_name_def
        example_line_track)

lemma parse_directory_Inr_iff:
  "parse_directory d es (w, m, p, l) = Inr (w', m', p', l') \<longleftrightarrow>
     list_all expected_entry es \<and>
     length (entries_with [''.txt''] es) \<le> (if m = None then 1 else 0) \<and>
     length (entries_with [''.log''] es) \<le> (if l = None then 1 else 0) \<and>
     length (entries_with [''.jpg'', ''.jpeg'', ''.png''] es) \<le> (if p = None then 1 else 0) \<and>
     w' = w @ map (\<lambda>e. d @ [entry_name e]) (entries_with [''.wav''] es) \<and>
     m' = first_path d (entries_with [''.txt''] es) m \<and>
     p' = first_path d (entries_with [''.jpg'', ''.jpeg'', ''.png''] es) p \<and>
     l' = first_path d (entries_with [''.log''] es) l"
proof (induction es arbitrary: w m p l)
  case Nil
  show ?case by (auto simp: entries_with_def first_path_def)
next
  case (Cons e es)
  consider (c_dir) "\<not> entry_is_file e"
    | (c_wav) "entry_is_file e" "name_suffix (entry_name e) = ''.wav''"
    | (c_txt) "entry_is_file e" "name_suffix (entry_name e) = ''.txt''"
    | (c_log) "entry_is_file e" "name_suffix (entry_name e) = ''.log''"
    | (c_pic) "entry_is_file e" "name_suffix (entry_name e) \<in> {''.jpg'', ''.jpeg'', ''.png''}"
    | (c_other) "entry_is_file e"
        "name_suffix (entry_name e) \<notin> {''.wav'', ''.txt'', ''.log'', ''.jpg'', ''.jpeg'', ''.png''}"
    by auto
  then show ?case
  proof cases
    case c_dir
    then show ?thesis by (simp add: expected_entry_def)
  next
    case c_wav
    then show ?thesis
      by (simp add: Cons.IH expected_entry_def entries_with_def first_path_def)
  next
    case c_txt
    then show ?thesis
      by (cases m) (auto simp add: Cons.IH expected_entry_def entries_with_def first_path_def
            split: list.splits)
  next
    case c_log
    then show ?thesis
      by (cases l) (auto simp add: Cons.IH expected_entry_def entries_with_def first_path_def
            split: list.splits)
  next
    case c_pic
    then show ?thesis
      by (cases p) (auto simp add: Cons.IH expected_entry_def entries_with_def first_path_def
            split: list.splits)
  next
    case c_other
    then show ?thesis by (simp add: expected_entry_def)
  qed
qed

lemma organize_wavs_Inr_iff:
  "organize_wavs ws lk = Inr lk' \<longleftrightarrow>
     list_all (\<lambda>w. wav_key w \<noteq> None) ws \<and>
     distinct (map wav_key ws) \<and>
     (\<forall>w\<in>set ws. \<forall>n. wav_key w = Some n \<longrightarrow> map_of lk n = None) \<and>
     lk' = lk @ map (\<lambda>w. (the (wav_key w), w)) ws"
proof (induction ws arbitrary: lk)
  case Nil
  show ?case by auto
next
  case (Cons w ws)
  show ?case
  proof (cases "wav_key w")
    case None
    then show ?thesis
      by (auto simp: wav_key_def split: option.splits)
  next
    case (Some n)
    then obtain ds where ds: "wav_regex_match (Path_name w) = Some ds" "py_int ds = Some n"
      by (auto simp: wav_key_def split: option.splits)
    show ?thesis
    proof (cases "map_of lk n")
      case (Some prev)
      with ds \<open>wav_key w = Some n\<close> show ?thesis by auto
    next
      case None
      have step: "organize_wavs (w # ws) lk = organize_wavs ws (lk @ [(n, w)])"
        using ds None by simp
      have keys: "\<And>v m. wav_key v = Some m \<Longrightarrow>
                    map_of (lk @ [(n, w)]) m = None \<longleftrightarrow> map_of lk m = None \<and> m \<noteq> n"
        by (auto simp: map_add_def split: option.splits)
      have "(\<forall>v\<in>set ws. \<forall>m. wav_key v = Some m \<longrightarrow> map_of (lk @ [(n, w)]) m = None) \<longleftrightarrow>
            (\<forall>v\<in>set ws. \<forall>m. wav_key v = Some m \<longrightarrow> map_of lk m = None) \<and>
            Some n \<notin> wav_key ` set ws"
        using keys by (auto simp: image_iff) metis
      then show ?thesis
        unfolding step Cons.IH
        using None \<open>wav_key w = Some n\<close> by auto
    qed
  qed
qed

lemma mset_eq_short: "mset xs = mset ys \<Longrightarrow> length xs \<le> 1 \<Longrightarrow> xs = ys"
proof -
  assume m: "mset xs = mset ys" and l: "length xs \<le> 1"
  from m have "length xs = length ys" by (rule mset_eq_length)
  with l m show ?thesis
    by (cases xs; cases ys) (auto split: if_splits)
qed

lemma entries_with_mset:
  "mset es' = mset es \<Longrightarrow> mset (entries_with s es') = mset (entries_with s es)"
  by (simp add: entries_with_def)

lemma dict_eq_perm:
  assumes "mset a = mset b" and "distinct (map fst b)"
  shows "dict_eq a b"
proof -
  have "length a = length b" using assms(1) by (rule mset_eq_length)
  moreover have "set a = set b" using assms(1) by (rule mset_eq_setD)
  ultimately show ?thesis
    using assms(2) by (auto simp: dict_eq_def list_all_iff)
qed

lemma from_directory_Inr_iff:
  "from_directory files d listing = Inr a \<longleftrightarrow>
     (\<exists>ws m p l mf lk lines trks.
        parse_directory d listing ([], None, None, None) = Inr (ws, m, p, l) \<and>
        ws \<noteq> [] \<and> m = Some mf \<and> organize_wavs ws [] = Inr lk \<and>
        map_of files mf = Some lines \<and> extract_metadata lines 0 [] = Inr trks \<and>
        a = \<lparr> source_dir = d, tracks = trks, album_pic = p,
              metadata_filename = Some mf, log_filename = l, wav_lookup = lk \<rparr>)"
  unfolding from_directory_def
  by (auto split: sum.splits option.splits prod.splits)

lemma parse_directory_perm:
  assumes "mset listing' = mset listing"
    and "parse_directory d listing ([], None, None, None) = Inr (ws, m, p, l)"
  shows "\<exists>ws'. parse_directory d listing' ([], None, None, None) = Inr (ws', m, p, l) \<and>
               mset ws' = mset ws"
proof -
  note ew = entries_with_mset [OF assms(1)]
  from assms(2) have ok: "list_all expected_entry listing"
    and lt: "length (entries_with [''.txt''] listing) \<le> 1"
    and ll: "length (entries_with [''.log''] listing) \<le> 1"
    and lp: "length (entries_with [''.jpg'', ''.jpeg'', ''.png''] listing) \<le> 1"
    and ws: "ws = map (\<lambda>e. d @ [entry_name e]) (entries_with [''.wav''] listing)"
    and m: "m = first_path d (entries_with [''.txt''] listing) None"
    and p: "p = first_path d (entries_with [''.jpg'', ''.jpeg'', ''.png''] listing) None"
    and l: "l = first_path d (entries_with [''.log''] listing) None"
    unfolding parse_directory_Inr_iff by simp_all
  have t: "entries_with [''.txt''] listing' = entries_with [''.txt''] listing"
    using ew lt by (metis mset_eq_short)
  have g: "entries_with [''.log''] listing' = entries_with [''.log''] listing"
    using ew ll by (metis mset_eq_short)
  have c: "entries_with [''.jpg'', ''.jpeg'', ''.png''] listing'
           = entries_with [''.jpg'', ''.jpeg'', ''.png''] listing"
    using ew lp by (metis mset_eq_short)
  have "set listing' = set listing" using assms(1) by (rule mset_eq_setD)
  with ok have ok': "list_all expected_entry listing'" by (simp add: list_all_iff)
  let ?ws' = "map (\<lambda>e. d @ [entry_name e]) (entries_with [''.wav''] listing')"
  have "parse_directory d listing' ([], None, None, None) = Inr (?ws', m, p, l)"
    unfolding parse_directory_Inr_iff t g c using ok' lt ll lp m p l by simp
  moreover have "mset ?ws' = mset ws"
    unfolding ws using ew [of "[''.wav'']"] by (metis mset_map)
  ultimately show ?thesis by blast
qed

lemma organize_wavs_perm:
  assumes "mset ws' = mset ws" and "organize_wavs ws [] = Inr lk"
  shows "\<exists>lk'. organize_wavs ws' [] = Inr lk' \<and> dict_eq lk lk' \<and> mset lk' = mset lk"
proof -
  from assms(2) have all: "list_all (\<lambda>w. wav_key w \<noteq> None) ws"
    and dist: "distinct (map wav_key ws)"
    and lk: "lk = map (\<lambda>w. (the (wav_key w), w)) ws"
    unfolding organize_wavs_Inr_iff by simp_all
  have s: "set ws' = set ws" using assms(1) by (rule mset_eq_setD)
  with all have all': "list_all (\<lambda>w. wav_key w \<noteq> None) ws'" by (simp add: list_all_iff)
  have "mset (map wav_key ws') = mset (map wav_key ws)" using assms(1) by simp
  with dist have dist': "distinct (map wav_key ws')"
    by (metis mset_eq_imp_distinct_iff)
  let ?lk' = "map (\<lambda>w. (the (wav_key w), w)) ws'"
  have run: "organize_wavs ws' [] = Inr ?lk'"
    unfolding organize_wavs_Inr_iff using all' dist' by simp
  have m: "mset ?lk' = mset lk" unfolding lk using assms(1) by simp
  have inj: "inj_on the (wav_key ` set ws')"
    using all' by (auto simp: inj_on_def list_all_iff) (metis option.sel)
  have "distinct (map the (map wav_key ws'))"
  proof (rule iffD2 [OF distinct_map], rule conjI)
    show "distinct (map wav_key ws')" by (rule dist')
    show "inj_on the (set (map wav_key ws'))" using inj by simp
  qed
  then have "distinct (map fst ?lk')" by (simp add: comp_def)
  with m have "dict_eq lk ?lk'" by (metis dict_eq_perm)
  with run m show ?thesis by blast
qed

text \<open>
  Claim C6, as the code has it. For two listings of the same entries in different orders:
  if \<open>from_directory\<close> returns an album for one, it returns an album for the other, equal to it
  as Python compares albums (the same fields, the wav lookup holding the same entries; only
  their insertion order follows the listing); if it fails for one, it fails for the other.
  The warning is that of the first offending entry in listing order, so it depends on the
  order.
\<close>

theorem from_directory_order_independent:
  assumes "mset listing' = mset listing"
  shows "case from_directory files d listing of
           Inr a \<Rightarrow>
             (\<exists>a'. from_directory files d listing' = Inr a' \<and> Album_eq a a'
                   \<and> mset (wav_lookup a') = mset (wav_lookup a))
         | Inl f \<Rightarrow> (\<exists>f'. from_directory files d listing' = Inl f')"
proof -
  have fwd: "\<exists>a'. from_directory files d l2 = Inr a' \<and> Album_eq a a'
                  \<and> mset (wav_lookup a') = mset (wav_lookup a)"
    if perm: "mset l2 = mset l1" and run: "from_directory files d l1 = Inr a"
    for l1 l2 a
  proof -
    from run obtain ws m p l mf lk lines trks where
      pd: "parse_directory d l1 ([], None, None, None) = Inr (ws, m, p, l)"
      and ne: "ws \<noteq> []" and mf: "m = Some mf"
      and ow: "organize_wavs ws [] = Inr lk"
      and fl: "map_of files mf = Some lines"
      and em: "extract_metadata lines 0 [] = Inr trks"
      and a: "a = \<lparr> source_dir = d, tracks = trks, album_pic = p,
                    metadata_filename = Some mf, log_filename = l, wav_lookup = lk \<rparr>"
      unfolding from_directory_Inr_iff by blast
    from parse_directory_perm [OF perm pd] obtain ws' where
      pd': "parse_directory d l2 ([], None, None, None) = Inr (ws', m, p, l)"
      and mw: "mset ws' = mset ws" by blast
    from mw ne have ne': "ws' \<noteq> []" by auto
    from organize_wavs_perm [OF mw ow] obtain lk' where
      ow': "organize_wavs ws' [] = Inr lk'" and de: "dict_eq lk lk'"
      and ml: "mset lk' = mset lk" by blast
    let ?a' = "\<lparr> source_dir = d, tracks = trks, album_pic = p,
                 metadata_filename = Some mf, log_filename = l, wav_lookup = lk' \<rparr>"
    have "from_directory files d l2 = Inr ?a'"
      unfolding from_directory_Inr_iff using pd' ne' mf ow' fl em by blast
    moreover have "Album_eq a ?a'" using de by (simp add: a Album_eq_def)
    moreover have "mset (wav_lookup ?a') = mset (wav_lookup a)" using ml by (simp add: a)
    ultimately show ?thesis by blast
  qed
  have bwd: "\<exists>f'. from_directory files d listing' = Inl f'"
    if rej: "from_directory files d listing = Inl f" for f
  proof (cases "from_directory files d listing'")
    case (Inl f')
    then show ?thesis by blast
  next
    case (Inr a')
    from fwd [OF assms [symmetric] Inr] rej show ?thesis by auto
  qed
  from fwd [OF assms] bwd show ?thesis by (cases "from_directory files d listing") auto
qed

theorem from_directory_order_independent_witness:
  "mset listing_b = mset listing_a \<and>
   from_directory example_files [''cd''] listing_a =
     Inr \<lparr> source_dir = [''cd''], tracks = [example_track 3 ''My Song''], album_pic = None,
           metadata_filename = Some [''cd'', ''meta.txt''], log_filename = None,
           wav_lookup = [(3, [''cd'', ''03 - My Song.wav'']), (4, [''cd'', ''04 - Other.wav''])] \<rparr> \<and>
   (\<exists>a'. from_directory example_files [''cd''] listing_b = Inr a' \<and>
         Album_eq
           \<lparr> source_dir = [''cd''], tracks = [example_track 3 ''My Song''], album_pic = None,
             metadata_filename = Some [''cd'', ''meta.txt''], log_filename = None,
             wav_lookup = [(3, [''cd'', ''03 - My Song.wav'']), (4, [''cd'', ''04 - Other.wav''])] \<rparr>
           a' \<and>
         wav_lookup a' = [(4, [''cd'', ''04 - Other.wav'']), (3, [''cd'', ''03 - My Song.wav''])])"
proof -
  have perm: "mset listing_b = mset listing_a"
    by (simp add: listing_a_def listing_b_def)
  show ?thesis
    using from_directory_order_independent [OF perm, of example_files "[''cd'']"] perm
    by (simp add: from_directory_listing_a) (auto simp add: from_directory_listing_b)
qed

theorem rejection_reason_depends_on_order:
  "mset [entry_stray, entry_sub] = mset [entry_sub, entry_stray] \<and>
   from_directory [] [''cd''] [entry_sub, entry_stray]
     = Inl (Warned (SubdirectoryNotExpected ''sub'')) \<and>
   from_directory [] [''cd''] [entry_stray, entry_sub]
     = Inl (Warned (FilenameNotExpected ''x.bin''))"
  by (simp add: from_directory_def entry_sub_def entry_stray_def name_suffix_examples)

section \<open>The Encode stage\<close>

lemma dict_pop_absent: "map_of d k = None \<Longrightarrow> dict_pop k d = d"
  by (induction d) (auto simp: dict_pop_def split: if_splits)

lemma dict_pop_filter:
  "dict_pop k (filter (\<lambda>kv. fst kv \<notin> S) d) = filter (\<lambda>kv. fst kv \<notin> insert k S) d"
  by (induction d) (auto simp: dict_pop_def)

lemma encode_tracks_completed:
  "encode_tracks run temp_dir pic ts fs lookup = Inr (None, errs, fs', lookup') \<Longrightarrow>
   errs = [] \<and> lookup' = filter (\<lambda>kv. fst kv \<notin> track_num ` set ts) lookup"
proof (induction ts arbitrary: fs lookup)
  case Nil
  then show ?case by simp
next
  case (Cons t ts)
  show ?case
  proof (cases "map_of lookup (track_num t)")
    case None
    with Cons.prems have rest:
      "encode_tracks run temp_dir pic ts fs lookup = Inr (None, errs, fs', lookup')"
      by (simp split: if_splits)
    from Cons.IH [OF rest] have e: "errs = []"
      and l: "lookup' = filter (\<lambda>kv. fst kv \<notin> track_num ` set ts) lookup" by simp_all
    have "dict_pop (track_num t) lookup' = lookup'"
    proof (rule dict_pop_absent)
      show "map_of lookup' (track_num t) = None"
        unfolding l using None by (induction lookup) (auto split: if_splits)
    qed
    then have "lookup' = filter (\<lambda>kv. fst kv \<notin> insert (track_num t) (track_num ` set ts)) lookup"
      unfolding l dict_pop_filter by simp
    with e show ?thesis by simp
  next
    case (Some wav)
    with Cons.prems obtain fs3 where rest:
      "encode_tracks run temp_dir pic ts fs3 (dict_pop (track_num t) lookup)
         = Inr (None, errs, fs', lookup')"
      by (auto split: sum.splits prod.splits if_splits)
    from Cons.IH [OF rest] have e: "errs = []"
      and l: "lookup' = filter (\<lambda>kv. fst kv \<notin> track_num ` set ts) (dict_pop (track_num t) lookup)"
      by simp_all
    have "lookup' = filter (\<lambda>kv. fst kv \<notin> insert (track_num t) (track_num ` set ts)) lookup"
      unfolding l dict_pop_def by (induction lookup) auto
    with e show ?thesis by simp
  qed
qed

lemma str_int_small: "str_int 1 = ''1''" "str_int 5 = ''5''" "str_int 7 = ''7''"
  by code_simp+

lemma with_suffix_examples:
  "Path_with_suffix [''flac'', ''cd''] ''.tmp'' = Inr [''flac'', ''cd.tmp'']"
  "Path_with_suffix [''flac'', ''Live.tmp''] ''.tmp'' = Inr [''flac'', ''Live.tmp'']"
  "Path_with_suffix [''in'', ''cd'', ''01 - Intro.wav''] ''.flac'' = Inr [''in'', ''cd'', ''01 - Intro.flac'']"
  by (simp_all add: Path_with_suffix_def Path_name_def Path_suffix_def name_suffix_def rfind_dot_def)

text \<open>
  Claim C7. When the output directory exists as a directory, \<open>Encode\<close> returns \<open>Skipped\<close>, with
  the filesystem and the album (its wav lookup included) as they were, and writes no error.
\<close>

theorem Encode_skips_existing_output:
  assumes "is_dir fs output_dir"
  shows "Encode run fs album output_dir = Inr (Skipped, fs, album, [])"
  using assms by (simp add: Encode_def)

theorem Encode_skips_existing_output_witness:
  "is_dir (root_only([''flac''] := Some Dir, [''flac'', ''cd''] := Some Dir)) [''flac'', ''cd''] \<and>
   Encode flac_ok (root_only([''flac''] := Some Dir, [''flac'', ''cd''] := Some Dir))
     album_extra_wav [''flac'', ''cd'']
   = Inr (Skipped, root_only([''flac''] := Some Dir, [''flac'', ''cd''] := Some Dir),
          album_extra_wav, [])"
proof -
  have d: "is_dir (root_only([''flac''] := Some Dir, [''flac'', ''cd''] := Some Dir)) [''flac'', ''cd'']"
    by (simp add: is_dir_def)
  show ?thesis
    using Encode_skips_existing_output [OF d, of flac_ok album_extra_wav] d by simp
qed

text \<open>
  Claim C9. When the track loop runs to its end and leaves the wav lookup non-empty, \<open>Encode\<close>
  returns \<open>Failure\<close> and its one error names every file left in the lookup; those are
  exactly the wav files whose track number no track record has.
\<close>

theorem Encode_unmatched_wavs:
  assumes "\<not> is_dir fs output_dir"
    and "Path_with_suffix output_dir ''.tmp'' = Inr temp_dir"
    and "mkdir_parents (if is_dir fs temp_dir then rmtree fs temp_dir else fs) temp_dir = Inr fs1"
    and "encode_tracks run temp_dir (album_pic album) (tracks album) fs1 (wav_lookup album)
           = Inr (None, errs, fs2, lookup)"
    and "lookup \<noteq> []"
  shows "Encode run fs album output_dir =
           Inr (Failure, fs2, album\<lparr>wav_lookup := lookup\<rparr>,
                [WavFilesNotProcessed (map (\<lambda>kv. Path_name (snd kv)) lookup)])
         \<and> lookup = filter (\<lambda>kv. fst kv \<notin> track_num ` set (tracks album)) (wav_lookup album)"
proof -
  from encode_tracks_completed [OF assms(4)] have e: "errs = []"
    and l: "lookup = filter (\<lambda>kv. fst kv \<notin> track_num ` set (tracks album)) (wav_lookup album)"
    by simp_all
  have "Encode run fs album output_dir =
           Inr (Failure, fs2, album\<lparr>wav_lookup := lookup\<rparr>,
                [WavFilesNotProcessed (map (\<lambda>kv. Path_name (snd kv)) lookup)])"
    using assms e by (simp add: Encode_def)
  with l show ?thesis by simp
qed

theorem Encode_unmatched_wavs_witness:
  "\<not> is_dir root_only [''flac'', ''cd''] \<and>
   (case Encode flac_ok root_only album_extra_wav [''flac'', ''cd''] of
      Inl ex \<Rightarrow> False
    | Inr (r, fs', album', errs) \<Rightarrow>
        r = Failure \<and> errs = [WavFilesNotProcessed [''07 - Extra.wav'']] \<and>
        wav_lookup album' = [(7, [''in'', ''cd'', ''07 - Extra.wav''])])"
proof -
  have a: "\<not> is_dir root_only [''flac'', ''cd'']"
    by (simp add: is_dir_def root_only_def)
  have b: "Path_with_suffix [''flac'', ''cd''] ''.tmp'' = Inr [''flac'', ''cd.tmp'']"
    by (rule with_suffix_examples)
  have "\<exists>fs1 fs2.
          mkdir_parents (if is_dir root_only [''flac'', ''cd.tmp'']
                         then rmtree root_only [''flac'', ''cd.tmp''] else root_only)
            [''flac'', ''cd.tmp''] = Inr fs1 \<and>
          encode_tracks flac_ok [''flac'', ''cd.tmp''] (album_pic album_extra_wav)
            (tracks album_extra_wav) fs1 (wav_lookup album_extra_wav)
          = Inr (None, [], fs2, [(7, [''in'', ''cd'', ''07 - Extra.wav''])])"
    by (simp add: mkdir_parents_def is_dir_def is_file_def root_only_def
          album_extra_wav_def example_track_def str_int_small unlink_missing_ok_def
          flac_ok_def with_suffix_examples rename_def Path_name_def dict_pop_def)
  then obtain fs1 fs2 where
    c: "mkdir_parents (if is_dir root_only [''flac'', ''cd.tmp'']
                       then rmtree root_only [''flac'', ''cd.tmp''] else root_only)
          [''flac'', ''cd.tmp''] = Inr fs1"
    and d: "encode_tracks flac_ok [''flac'', ''cd.tmp''] (album_pic album_extra_wav)
              (tracks album_extra_wav) fs1 (wav_lookup album_extra_wav)
            = Inr (None, [], fs2, [(7, [''in'', ''cd'', ''07 - Extra.wav''])])"
    by blast
  have e: "[(7::int, [''in'', ''cd'', ''07 - Extra.wav''])] \<noteq> []" by simp
  show ?thesis
    using Encode_unmatched_wavs [OF a b c d e] a
    by (simp add: Path_name_def)
qed

text \<open>
  Claim C8. For an output directory whose name ends in \<open>.tmp\<close>, \<open>with_suffix(".tmp")\<close> is the
  output directory itself: \<open>Encode\<close> creates it as its working directory, returns \<open>Failure\<close>
  on the missing track and leaves it behind; the next call finds it and returns \<open>Skipped\<close>.
\<close>

theorem Encode_leaves_partial_output_dir:
  "root_only [''flac'', ''Live.tmp''] = None \<and>
   (case Encode flac_ok root_only album_live_tmp [''flac'', ''Live.tmp''] of
      Inl ex \<Rightarrow> False
    | Inr (r, fs', album', errs) \<Rightarrow>
        r = Failure \<and> errs = [TrackNotFound 5] \<and> is_dir fs' [''flac'', ''Live.tmp''] \<and>
        (case Encode flac_ok fs' album' [''flac'', ''Live.tmp''] of
           Inl ex \<Rightarrow> False
         | Inr (r2, fs'', album'', errs2) \<Rightarrow> r2 = Skipped))"
  by (simp add: Encode_def root_only_def is_dir_def with_suffix_examples mkdir_parents_def
        is_file_def album_live_tmp_def example_track_def)

section \<open>The batch orchestrator: encode, then archive\<close>





















end
